theory Spec2Isabelle
  imports Main
begin

section \<open>The query-transform cookbook: the functions the notebook defines\<close>

text \<open>
  \<^verbatim>\<open>docs/examples/query_transformations/query_transform_cookbook.ipynb\<close> defines three
  functions of its own: \<^verbatim>\<open>generate_queries\<close>, \<^verbatim>\<open>execute_sql\<close> and \<^verbatim>\<open>add\<close>.
  A Python \<^verbatim>\<open>str\<close> is modelled as a \<^typ>\<open>string\<close>; the two string operations that
  \<^verbatim>\<open>generate_queries\<close> uses are defined for lists over any character type, so nothing
  below depends on the size of the alphabet.
\<close>

subsection \<open>\<^verbatim>\<open>str.split\<close> and \<^verbatim>\<open>str.join\<close>\<close>

text \<open>
  \<^verbatim>\<open>s.split(sep)\<close> with a separator of one character, the only way the notebook calls
  it (\<^verbatim>\<open>response.split("\n")\<close>): the pieces of \<open>s\<close> between the occurrences of the
  separator, empty pieces included, so that the empty string gives one empty piece.
\<close>

fun str_split :: "'a \<Rightarrow> 'a list \<Rightarrow> 'a list list" where
  "str_split sep [] = [[]]"
| "str_split sep (x # xs) =
     (let rest = str_split sep xs
      in if x = sep then [] # rest else (x # hd rest) # tl rest)"

text \<open>\<^verbatim>\<open>sep.join(pieces)\<close>: the pieces with \<open>sep\<close> between each two neighbours.\<close>

fun str_join :: "'a list \<Rightarrow> 'a list list \<Rightarrow> 'a list" where
  "str_join sep [] = []"
| "str_join sep [p] = p"
| "str_join sep (p # q # ps) = p @ sep @ str_join sep (q # ps)"

subsection \<open>\<^verbatim>\<open>generate_queries\<close>\<close>

text \<open>
  \<^verbatim>\<open>
  query_gen_str = """\
  You are a helpful assistant that generates multiple search queries based on a \
  single input query. Generate {num_queries} search queries, one on each line, \
  related to the following input query:
  Query: {query}
  Queries:
  """
  query_gen_prompt = PromptTemplate(query_gen_str)

  def generate_queries(query: str, llm, num_queries: int = 4):
      response = llm.predict(
          query_gen_prompt, num_queries=num_queries, query=query
      )
      # assume LLM proper put each query on a newline
      queries = response.split("\n")
      queries_str = "\n".join(queries)
      print(f"Generated queries:\n{queries_str}")
      return queries
  \<close>
  The language model is an argument of the function. Its \<^verbatim>\<open>predict\<close> method is
  modelled by the response it gives to the prompt template and the two keyword
  arguments; nothing is assumed about that response. A call of \<^verbatim>\<open>predict\<close> that
  raises leaves \<^verbatim>\<open>generate_queries\<close> before its first own statement, so the function
  has no branch for it. What \<^verbatim>\<open>print\<close> writes is returned beside the list of queries.
\<close>

definition query_gen_str :: string where
  "query_gen_str =
     ''You are a helpful assistant that generates multiple search queries based on a '' @
     ''single input query. Generate {num_queries} search queries, one on each line, '' @
     ''related to the following input query:'' @ [CHR 0x0A] @
     ''Query: {query}'' @ [CHR 0x0A] @
     ''Queries:'' @ [CHR 0x0A]"

type_synonym llm = "string \<Rightarrow> int \<Rightarrow> string \<Rightarrow> string"

record generated =
  queries :: "string list"
  printed :: string

definition generate_queries :: "string \<Rightarrow> llm \<Rightarrow> int \<Rightarrow> generated" where
  "generate_queries query llm num_queries =
     (let response = llm query_gen_str num_queries query;
          queries = str_split (CHR 0x0A) response;
          queries_str = str_join [CHR 0x0A] queries
      in \<lparr>queries = queries,
          printed = ''Generated queries:'' @ [CHR 0x0A] @ queries_str @ [CHR 0x0A]\<rparr>)"

text \<open>The call \<^verbatim>\<open>generate_queries(query, llm)\<close> takes the default \<^verbatim>\<open>num_queries = 4\<close>.\<close>

definition generate_queries_default :: "string \<Rightarrow> llm \<Rightarrow> generated" where
  "generate_queries_default query llm = generate_queries query llm 4"

subsection \<open>The tool functions \<^verbatim>\<open>execute_sql\<close> and \<^verbatim>\<open>add\<close>\<close>

text \<open>
  \<^verbatim>\<open>
  def execute_sql(sql: str) -> str:
      """Given a SQL input string, execute it."""
      # NOTE: This is a mock function
      return f"Executed {sql}"

  def add(a: int, b: int) -> int:
      """Add two numbers."""
      return a + b
  \<close>
  Python does not enforce the annotations, so the arguments are objects. The objects
  modelled are those of the two types the annotations name: integers (unbounded, hence
  \<^typ>\<open>int\<close>; \<^verbatim>\<open>bool\<close> is left out) and strings.
\<close>

datatype py_value = PyInt int | PyStr string

datatype exception = TypeError

text \<open>
  A call runs in a world and leaves a world behind: what has been written to standard
  output, and the SQL statements that have been executed against a database. The
  functions take any extension of this record, so whatever else a world holds is
  covered as well. A call ends with a value or with an exception.
\<close>

record world =
  stdout :: string
  executed :: "string list"

text \<open>
  \<^verbatim>\<open>a + b\<close> on the modelled objects: the sum of two integers, the concatenation of two
  strings, and \<^verbatim>\<open>TypeError\<close> for an integer and a string in either order.
\<close>

fun binary_add :: "py_value \<Rightarrow> py_value \<Rightarrow> exception + py_value" where
  "binary_add (PyInt a) (PyInt b) = Inr (PyInt (a + b))"
| "binary_add (PyStr s) (PyStr t) = Inr (PyStr (s @ t))"
| "binary_add (PyInt a) (PyStr t) = Inl TypeError"
| "binary_add (PyStr s) (PyInt b) = Inl TypeError"

text \<open>
  What a replacement field \<^verbatim>\<open>{sql}\<close> of an f-string shows: a string as it is, an integer
  in decimal with a minus sign when it is negative.
\<close>

definition digit :: "nat \<Rightarrow> char" where
  "digit d = ''0123456789'' ! d"

function str_of_nat :: "nat \<Rightarrow> string" where
  "str_of_nat n =
     (if n < 10 then [digit n] else str_of_nat (n div 10) @ [digit (n mod 10)])"
  by pat_completeness auto
termination
  by (relation "measure id") auto

declare str_of_nat.simps [simp del]

fun format_value :: "py_value \<Rightarrow> string" where
  "format_value (PyStr s) = s"
| "format_value (PyInt i) =
     (if i < 0 then ''-'' @ str_of_nat (nat (- i)) else str_of_nat (nat i))"

text \<open>
  The two bodies are one \<^verbatim>\<open>return\<close> each. Neither writes to standard output nor
  executes a statement; \<^verbatim>\<open>execute_sql\<close> only formats its argument into a string.
\<close>

definition execute_sql ::
  "py_value \<Rightarrow> 'a world_scheme \<Rightarrow> (exception + py_value) \<times> 'a world_scheme" where
  "execute_sql sql w = (Inr (PyStr (''Executed '' @ format_value sql)), w)"

definition add ::
  "py_value \<Rightarrow> py_value \<Rightarrow> 'a world_scheme \<Rightarrow> (exception + py_value) \<times> 'a world_scheme"
  where
  "add a b w = (binary_add a b, w)"

section \<open>The Redis ingestion notebook\<close>

text \<open>
  \<^verbatim>\<open>docs/examples/ingestion/redis_ingestion_pipeline.ipynb\<close> defines no function. It
  writes files into a directory, loads them, and runs an ingestion pipeline twice:
  \<^verbatim>\<open>
  !echo "This is a test file: one!" > test_redis_data/test1.txt
  !echo "This is a test file: two!" > test_redis_data/test2.txt

  documents = SimpleDirectoryReader("./test_redis_data", filename_as_id=True).load_data()
  pipeline = IngestionPipeline(
      transformations=[SentenceSplitter(), embed_model],
      docstore=RedisDocumentStore.from_host_and_port(...),
      vector_store=RedisVectorStore(...),
      cache=IngestionCache(...),
      docstore_strategy=DocstoreStrategy.UPSERTS,
  )
  nodes = pipeline.run(documents=documents)      # Ingested 2 Nodes

  !echo "This is a test file: three!" > test_redis_data/test3.txt
  !echo "This is a NEW test file: one!" > test_redis_data/test1.txt

  documents = SimpleDirectoryReader("./test_redis_data", filename_as_id=True).load_data()
  nodes = pipeline.run(documents=documents)      # Ingested 2 Nodes
  \<close>
  The reader, the splitter, the embedding model, the stores and the pipeline are classes
  of the library; their code is not among the source files, only these calls are.
\<close>

subsection \<open>The directory the notebook writes\<close>

text \<open>
  A directory is the list of its files, each a name and a content, in the order the
  reader lists them. \<^verbatim>\<open>echo\<close> ends what it writes with a newline.
\<close>

type_synonym directory = "(string \<times> string) list"

definition seed_data :: directory where
  "seed_data =
     [(''test_redis_data/test1.txt'', ''This is a test file: one!'' @ [CHR 0x0A]),
      (''test_redis_data/test2.txt'', ''This is a test file: two!'' @ [CHR 0x0A])]"

definition updated_data :: directory where
  "updated_data =
     [(''test_redis_data/test1.txt'', ''This is a NEW test file: one!'' @ [CHR 0x0A]),
      (''test_redis_data/test2.txt'', ''This is a test file: two!'' @ [CHR 0x0A]),
      (''test_redis_data/test3.txt'', ''This is a test file: three!'' @ [CHR 0x0A])]"

subsection \<open>The document loader\<close>

text \<open>
  Modelled from the spec: the document type of the library is not among the source
  files. A document is what the loader makes of a file: an identifier and a text.
\<close>

record document =
  doc_id :: string
  doc_text :: string

text \<open>
  Modelled from the spec: \<^verbatim>\<open>SimpleDirectoryReader.load_data\<close> is not among the source
  files. The spec describes "a document loader that reads files from a directory and
  assigns deterministic identifiers", and the notebook asks for them with
  \<^verbatim>\<open>filename_as_id=True\<close>: with the flag set a document's identifier is the name of
  its file. What the identifier is without the flag is said nowhere; it is the parameter
  \<open>other_id\<close>, which may differ from one invocation to the next.
\<close>

definition load_data :: "bool \<Rightarrow> (nat \<Rightarrow> string) \<Rightarrow> directory \<Rightarrow> document list" where
  "load_data filename_as_id other_id dir =
     map (\<lambda>(i, (name, content)).
            \<lparr>doc_id = (if filename_as_id then name else other_id i), doc_text = content\<rparr>)
         (enumerate 0 dir)"

subsection \<open>The ingestion pipeline with the upsert strategy\<close>

text \<open>
  Modelled from the spec: the node type of the library is not among the source files.
  The glossary calls a node "a chunk of a source document"; the embedding model "maps
  text to vectors". A node carries the identifier of its document, its chunk of text and
  the vector of that chunk. Vectors are of any type \<open>'v\<close>.
\<close>

record 'v node =
  ref_doc_id :: string
  node_text :: string
  embedding :: 'v

text \<open>
  Modelled from the spec: the stores of the library are not among the source files. The
  document store remembers, for each identifier, the content that was ingested under
  it; the vector store holds the indexed nodes. The spec names a cache as well and says
  nothing of what it holds or when it is written, so the model has none.
\<close>

record 'v pipeline =
  docstore :: "string \<rightharpoonup> string"
  vector_store :: "'v node list"

definition empty_pipeline :: "'v pipeline" where
  "empty_pipeline = \<lparr>docstore = Map.empty, vector_store = []\<rparr>"

text \<open>
  Modelled from the spec: \<^verbatim>\<open>SentenceSplitter\<close> and the embedding model are not among
  the source files. "A text splitter that chunks documents into nodes" and "an embedding
  model that maps text to vectors" are the parameters \<open>splitter\<close> and \<open>embed_model\<close>;
  the two transformations of the notebook's pipeline, applied to one document, give one
  embedded node for each chunk.
\<close>

definition run_transformations ::
  "(string \<Rightarrow> string list) \<Rightarrow> (string \<Rightarrow> 'v) \<Rightarrow> document \<Rightarrow> 'v node list" where
  "run_transformations splitter embed_model d =
     map (\<lambda>chunk. \<lparr>ref_doc_id = doc_id d, node_text = chunk, embedding = embed_model chunk\<rparr>)
         (splitter (doc_text d))"

text \<open>
  Modelled from the spec: the upsert strategy of \<^verbatim>\<open>IngestionPipeline\<close> is not among the
  source files. The pipeline "transforms, embeds, deduplicates, and upserts nodes", such
  that "unmodified content is neither re-embedded nor duplicated and modified content
  replaces its prior entry". For one document:
  \<^item> an identifier the document store does not know: the document is transformed, its
    nodes are added and its content is recorded;
  \<^item> a known identifier with the same content: nothing is done;
  \<^item> a known identifier with another content: the nodes stored under the identifier are
    removed, the document is transformed, its nodes are added and the new content is
    recorded.
  The result is the new state and the nodes that were made.
\<close>

definition upsert ::
  "(string \<Rightarrow> string list) \<Rightarrow> (string \<Rightarrow> 'v) \<Rightarrow> 'v pipeline \<Rightarrow> document
     \<Rightarrow> 'v pipeline \<times> 'v node list" where
  "upsert splitter embed_model p d =
     (case docstore p (doc_id d) of
        None \<Rightarrow>
          (let nodes = run_transformations splitter embed_model d
           in (p\<lparr>docstore := (docstore p)(doc_id d \<mapsto> doc_text d),
                 vector_store := vector_store p @ nodes\<rparr>, nodes))
      | Some stored \<Rightarrow>
          if stored = doc_text d then (p, [])
          else
            (let nodes = run_transformations splitter embed_model d
             in (p\<lparr>docstore := (docstore p)(doc_id d \<mapsto> doc_text d),
                   vector_store :=
                     filter (\<lambda>n. ref_doc_id n \<noteq> doc_id d) (vector_store p) @ nodes\<rparr>,
                 nodes)))"

text \<open>
  Modelled from the spec: \<^verbatim>\<open>IngestionPipeline.run\<close> is not among the source files.
  \<^verbatim>\<open>pipeline.run(documents=documents)\<close> with \<^verbatim>\<open>DocstoreStrategy.UPSERTS\<close> upserts the
  documents one after the other and returns the nodes it made (the notebook prints how
  many).
\<close>

fun run ::
  "(string \<Rightarrow> string list) \<Rightarrow> (string \<Rightarrow> 'v) \<Rightarrow> 'v pipeline \<Rightarrow> document list
     \<Rightarrow> 'v pipeline \<times> 'v node list" where
  "run splitter embed_model p [] = (p, [])"
| "run splitter embed_model p (d # ds) =
     (let (p1, nodes1) = upsert splitter embed_model p d;
          (p2, nodes2) = run splitter embed_model p1 ds
      in (p2, nodes1 @ nodes2))"

text \<open>The nodes of a list that belong to the document with identifier \<open>k\<close>.\<close>

definition nodes_of :: "string \<Rightarrow> 'v node list \<Rightarrow> 'v node list" where
  "nodes_of k ns = filter (\<lambda>n. ref_doc_id n = k) ns"

subsection \<open>The two runs of the notebook\<close>

text \<open>
  The notebook loads the directory and runs the pipeline, changes the directory, loads
  it and runs the pipeline again. The splitter and the embedding model it uses are
  classes of the library; where a concrete pair is needed, \<open>one_chunk\<close> keeps a text in
  one piece, as a sentence splitter does with a file of one short line, and the length
  of a chunk stands for its vector.
\<close>

definition one_chunk :: "string \<Rightarrow> string list" where
  "one_chunk t = [t]"

definition first_documents :: "document list" where
  "first_documents = load_data True (\<lambda>i. []) seed_data"

definition second_documents :: "document list" where
  "second_documents = load_data True (\<lambda>i. []) updated_data"

definition first_run :: "nat pipeline \<times> nat node list" where
  "first_run = run one_chunk length empty_pipeline first_documents"

definition second_run :: "nat pipeline \<times> nat node list" where
  "second_run = run one_chunk length (fst first_run) second_documents"

section \<open>Properties of the notebook's functions\<close>

lemma str_split_not_Nil: "str_split sep s \<noteq> []"
  by (induction s) (simp_all add: Let_def)

lemma str_join_Cons:
  "ps \<noteq> [] \<Longrightarrow> str_join sep (p # ps) = p @ sep @ str_join sep ps"
  by (cases ps) simp_all

lemma str_join_hd_Cons:
  "str_join sep ((x # hd ps) # tl ps) = x # str_join sep ps" if "ps \<noteq> []"
proof (cases ps)
  case Nil
  with that show ?thesis by simp
next
  case (Cons q qs)
  then show ?thesis by (cases qs) simp_all
qed

lemma str_join_split: "str_join [sep] (str_split sep s) = s"
proof (induction s)
  case Nil
  show ?case by simp
next
  case (Cons x xs)
  have ne: "str_split sep xs \<noteq> []" by (rule str_split_not_Nil)
  show ?case
  proof (cases "x = sep")
    case True
    then show ?thesis using Cons ne by (simp add: Let_def str_join_Cons)
  next
    case False
    then show ?thesis using Cons ne by (simp add: Let_def str_join_hd_Cons)
  qed
qed

lemma length_str_split: "length (str_split sep s) = Suc (count_list s sep)"
proof (induction s)
  case Nil
  show ?case by simp
next
  case (Cons x xs)
  have "str_split sep xs \<noteq> []" by (rule str_split_not_Nil)
  then have "length (tl (str_split sep xs)) = length (str_split sep xs) - 1"
    by simp
  with Cons show ?case by (simp add: Let_def)
qed

lemma str_split_no_sep: "list_all (\<lambda>q. sep \<notin> set q) (str_split sep s)"
proof (induction s)
  case Nil
  show ?case by simp
next
  case (Cons x xs)
  obtain r rs where rest: "str_split sep xs = r # rs"
    using str_split_not_Nil[of sep xs] by (cases "str_split sep xs") auto
  with Cons show ?case by (simp add: Let_def)
qed

lemma concat_str_split:
  "concat (map (\<lambda>q. q @ [sep]) (str_split sep s)) = s @ [sep]"
proof (induction s)
  case Nil
  show ?case by simp
next
  case (Cons x xs)
  obtain r rs where rest: "str_split sep xs = r # rs"
    using str_split_not_Nil[of sep xs] by (cases "str_split sep xs") auto
  with Cons show ?case by (simp add: Let_def)
qed

lemma str_split_unique:
  "list_all (\<lambda>q. sep \<notin> set q) qs \<Longrightarrow>
   concat (map (\<lambda>q. q @ [sep]) qs) = s @ [sep] \<Longrightarrow> qs = str_split sep s"
proof (induction s arbitrary: qs)
  case Nil
  then obtain q qs' where qs: "qs = q # qs'" by (cases qs) auto
  with Nil have q: "q = []" by (cases q) auto
  with Nil qs have "concat (map (\<lambda>q. q @ [sep]) qs') = []" by simp
  then have "qs' = []" by (cases qs') auto
  with qs q show ?case by simp
next
  case (Cons x xs)
  then obtain q qs' where qs: "qs = q # qs'" by (cases qs) auto
  show ?case
  proof (cases q)
    case Nil
    with Cons.prems qs have x: "x = sep"
      and rest: "concat (map (\<lambda>q. q @ [sep]) qs') = xs @ [sep]"
      and ok: "list_all (\<lambda>q. sep \<notin> set q) qs'" by auto
    from Cons.IH[OF ok rest] x qs Nil show ?thesis by (simp add: Let_def)
  next
    case (Cons y ys)
    with Cons.prems qs have x: "y = x" "x \<noteq> sep"
      and rest: "concat (map (\<lambda>q. q @ [sep]) (ys # qs')) = xs @ [sep]"
      and ok: "list_all (\<lambda>q. sep \<notin> set q) (ys # qs')" by auto
    from Cons.IH[OF ok rest] have "str_split sep xs = ys # qs'" by simp
    with x qs Cons show ?thesis by (simp add: Let_def)
  qed
qed

section \<open>Properties of the ingestion model\<close>

lemma nodes_of_run_transformations:
  "nodes_of k (run_transformations sp em d) =
     (if k = doc_id d then run_transformations sp em d else [])"
  by (auto simp: nodes_of_def run_transformations_def filter_map o_def)

lemma nodes_of_append: "nodes_of k (xs @ ys) = nodes_of k xs @ nodes_of k ys"
  by (simp add: nodes_of_def)

lemma nodes_of_remove:
  "nodes_of k (filter (\<lambda>n. ref_doc_id n \<noteq> j) ns) = (if k = j then [] else nodes_of k ns)"
  by (induction ns) (auto simp: nodes_of_def)

lemma upsert_docstore_other:
  "k \<noteq> doc_id d \<Longrightarrow> docstore (fst (upsert sp em p d)) k = docstore p k"
  by (simp add: upsert_def Let_def split: option.splits)

lemma upsert_docstore_self:
  "docstore (fst (upsert sp em p d)) (doc_id d) = Some (doc_text d)"
  by (simp add: upsert_def Let_def split: option.splits)

lemma upsert_nodes_other:
  "k \<noteq> doc_id d \<Longrightarrow>
   nodes_of k (vector_store (fst (upsert sp em p d))) = nodes_of k (vector_store p)"
  by (simp add: upsert_def Let_def nodes_of_append nodes_of_remove
      nodes_of_run_transformations split: option.splits)

lemma upsert_out_other:
  "k \<noteq> doc_id d \<Longrightarrow> nodes_of k (snd (upsert sp em p d)) = []"
  by (simp add: upsert_def Let_def nodes_of_run_transformations split: option.splits)
     (simp add: nodes_of_def)


lemma upsert_modified:
  "docstore p (doc_id d) = Some t \<Longrightarrow> t \<noteq> doc_text d \<Longrightarrow>
   nodes_of (doc_id d) (vector_store (fst (upsert sp em p d))) = run_transformations sp em d \<and>
   snd (upsert sp em p d) = run_transformations sp em d"
  by (simp add: upsert_def Let_def nodes_of_append nodes_of_remove
      nodes_of_run_transformations)

lemma run_Cons:
  "run sp em p (d # ds) =
     (fst (run sp em (fst (upsert sp em p d)) ds),
      snd (upsert sp em p d) @ snd (run sp em (fst (upsert sp em p d)) ds))"
  by (simp add: Let_def split: prod.splits)

declare run.simps(2) [simp del]

lemma run_docstore_other:
  "k \<notin> doc_id ` set ds \<Longrightarrow> docstore (fst (run sp em p ds)) k = docstore p k"
proof (induction ds arbitrary: p)
  case Nil
  show ?case by simp
next
  case (Cons d ds)
  then show ?case by (simp add: run_Cons upsert_docstore_other)
qed

lemma run_nodes_other:
  "k \<notin> doc_id ` set ds \<Longrightarrow>
   nodes_of k (vector_store (fst (run sp em p ds))) = nodes_of k (vector_store p)"
proof (induction ds arbitrary: p)
  case Nil
  show ?case by simp
next
  case (Cons d ds)
  then show ?case by (simp add: run_Cons upsert_nodes_other)
qed

lemma run_out_other:
  "k \<notin> doc_id ` set ds \<Longrightarrow> nodes_of k (snd (run sp em p ds)) = []"
proof (induction ds arbitrary: p)
  case Nil
  show ?case by (simp add: nodes_of_def)
next
  case (Cons d ds)
  then show ?case by (simp add: run_Cons nodes_of_append upsert_out_other)
qed

lemma run_docstore_self:
  "distinct (map doc_id ds) \<Longrightarrow> d \<in> set ds \<Longrightarrow>
   docstore (fst (run sp em p ds)) (doc_id d) = Some (doc_text d)"
proof (induction ds arbitrary: p)
  case Nil
  then show ?case by simp
next
  case (Cons x xs)
  show ?case
  proof (cases "d = x")
    case True
    with Cons.prems have "doc_id d \<notin> doc_id ` set xs" by simp
    then show ?thesis using True
      by (simp add: run_Cons run_docstore_other upsert_docstore_self)
  next
    case False
    with Cons.prems have "d \<in> set xs" "distinct (map doc_id xs)" by simp_all
    then show ?thesis by (simp add: run_Cons Cons.IH)
  qed
qed


lemma run_modified:
  "distinct (map doc_id ds) \<Longrightarrow> d \<in> set ds \<Longrightarrow>
   docstore p (doc_id d) = Some t \<Longrightarrow> t \<noteq> doc_text d \<Longrightarrow>
   nodes_of (doc_id d) (vector_store (fst (run sp em p ds))) = run_transformations sp em d \<and>
   nodes_of (doc_id d) (snd (run sp em p ds)) = run_transformations sp em d"
proof (induction ds arbitrary: p)
  case Nil
  then show ?case by simp
next
  case (Cons x xs)
  show ?case
  proof (cases "d = x")
    case True
    with Cons.prems have other: "doc_id x \<notin> doc_id ` set xs" by simp
    from upsert_modified[of p x t sp em] Cons.prems True other show ?thesis
      by (simp add: run_Cons run_nodes_other run_out_other nodes_of_append
          nodes_of_run_transformations)
  next
    case False
    with Cons.prems have xs: "d \<in> set xs" "distinct (map doc_id xs)"
      by simp_all
    from Cons.prems(1) xs(1) have ne: "doc_id d \<noteq> doc_id x"
      by (auto simp: image_iff)
    let ?p1 = "fst (upsert sp em p x)"
    have keep: "docstore ?p1 (doc_id d) = Some t"
      using ne Cons.prems(3) by (simp add: upsert_docstore_other)
    from Cons.IH[OF xs(2) xs(1) keep Cons.prems(4)] ne show ?thesis
      by (simp add: run_Cons nodes_of_append upsert_out_other)
  qed
qed


lemma remove_run_transformations:
  "filter (\<lambda>n. ref_doc_id n \<noteq> k) (run_transformations sp em d) =
     (if doc_id d = k then [] else run_transformations sp em d)"
  by (auto simp: run_transformations_def filter_map o_def)

lemma length_run_transformations:
  "length (run_transformations sp em d) = length (sp (doc_text d))"
  by (simp add: run_transformations_def)

lemma load_data_ids:
  "map doc_id (load_data True other_id dir) = map fst dir"
proof -
  have "map (\<lambda>(i, (name, content)). name) (enumerate k dir) = map fst dir" for k :: nat
    by (induction dir arbitrary: k) auto
  then show ?thesis
    by (simp add: load_data_def o_def split_def)
qed

section \<open>The claims\<close>

text \<open>
  Claim C1. The pipeline with the upsert strategy is run on a directory of two files and
  run again after one file was modified, one was left as it was and one was added. With
  a splitter that makes one chunk of each of these files (the first run of the notebook
  reports two nodes for its two one-line files), each run returns two nodes and the
  vector store holds three nodes afterwards, not five: those of the unmodified file, of
  the modified file's new content and of the added file.
\<close>

theorem three_nodes_after_rerun:
  assumes "distinct [f1, f2, f3]" and "a' \<noteq> a"
    and "length (sp a) = 1" and "length (sp a') = 1"
    and "length (sp b) = 1" and "length (sp c) = 1"
  shows "length (snd (run sp em empty_pipeline (load_data True o1 [(f1, a), (f2, b)]))) = 2 \<and>
         length (snd (run sp em
           (fst (run sp em empty_pipeline (load_data True o1 [(f1, a), (f2, b)])))
           (load_data True o2 [(f1, a'), (f2, b), (f3, c)]))) = 2 \<and>
         length (vector_store (fst (run sp em
           (fst (run sp em empty_pipeline (load_data True o1 [(f1, a), (f2, b)])))
           (load_data True o2 [(f1, a'), (f2, b), (f3, c)])))) = 3 \<and>
         vector_store (fst (run sp em
           (fst (run sp em empty_pipeline (load_data True o1 [(f1, a), (f2, b)])))
           (load_data True o2 [(f1, a'), (f2, b), (f3, c)]))) =
           run_transformations sp em \<lparr>doc_id = f2, doc_text = b\<rparr> @
           run_transformations sp em \<lparr>doc_id = f1, doc_text = a'\<rparr> @
           run_transformations sp em \<lparr>doc_id = f3, doc_text = c\<rparr>"
proof -
  let ?d1 = "\<lparr>doc_id = f1, doc_text = a\<rparr>" and ?d1' = "\<lparr>doc_id = f1, doc_text = a'\<rparr>"
  let ?d2 = "\<lparr>doc_id = f2, doc_text = b\<rparr>" and ?d3 = "\<lparr>doc_id = f3, doc_text = c\<rparr>"
  let ?n1 = "run_transformations sp em ?d1" and ?n1' = "run_transformations sp em ?d1'"
  let ?n2 = "run_transformations sp em ?d2" and ?n3 = "run_transformations sp em ?d3"
  let ?p1 = "\<lparr>docstore = [f1 \<mapsto> a, f2 \<mapsto> b], vector_store = ?n1 @ ?n2\<rparr>"
  have ne: "f1 \<noteq> f2" "f1 \<noteq> f3" "f2 \<noteq> f3" "f2 \<noteq> f1" "f3 \<noteq> f1" "f3 \<noteq> f2"
    using assms(1) by auto
  have docs1: "load_data True o1 [(f1, a), (f2, b)] = [?d1, ?d2]"
    by (simp add: load_data_def)
  have docs2: "load_data True o2 [(f1, a'), (f2, b), (f3, c)] = [?d1', ?d2, ?d3]"
    by (simp add: load_data_def)
  have u1: "upsert sp em empty_pipeline ?d1 =
      (\<lparr>docstore = [f1 \<mapsto> a], vector_store = ?n1\<rparr>, ?n1)"
    by (simp add: upsert_def empty_pipeline_def Let_def)
  have u2: "upsert sp em \<lparr>docstore = [f1 \<mapsto> a], vector_store = ?n1\<rparr> ?d2 = (?p1, ?n2)"
    using ne by (simp add: upsert_def Let_def)
  have r1: "run sp em empty_pipeline [?d1, ?d2] = (?p1, ?n1 @ ?n2)"
    by (simp add: run_Cons u1 u2)
  let ?q1 = "\<lparr>docstore = [f1 \<mapsto> a', f2 \<mapsto> b], vector_store = ?n2 @ ?n1'\<rparr>"
  let ?q3 = "\<lparr>docstore = [f1 \<mapsto> a', f2 \<mapsto> b, f3 \<mapsto> c],
             vector_store = ?n2 @ ?n1' @ ?n3\<rparr>"
  have "[f1 \<mapsto> a, f2 \<mapsto> b, f1 \<mapsto> a'] = [f1 \<mapsto> a', f2 \<mapsto> b]"
    using ne by (auto simp: fun_eq_iff)
  then have v1: "upsert sp em ?p1 ?d1' = (?q1, ?n1')"
    using ne assms(2) by (simp add: upsert_def Let_def remove_run_transformations)
  have v2: "upsert sp em ?q1 ?d2 = (?q1, [])"
    by (simp add: upsert_def)
  have v3: "upsert sp em ?q1 ?d3 = (?q3, ?n3)"
    using ne by (simp add: upsert_def Let_def)
  have r2: "run sp em ?p1 [?d1', ?d2, ?d3] = (?q3, ?n1' @ ?n3)"
    by (simp add: run_Cons v1 v2 v3)
  show ?thesis
    using assms(3-6) by (simp add: docs1 docs2 r1 r2 length_run_transformations)
qed

theorem three_nodes_after_rerun_witness:
  "distinct (map fst updated_data) \<and>
   snd (updated_data ! 0) \<noteq> snd (seed_data ! 0) \<and>
   length (one_chunk (snd (seed_data ! 0))) = 1 \<and>
   length (one_chunk (snd (updated_data ! 0))) = 1 \<and>
   length (one_chunk (snd (updated_data ! 1))) = 1 \<and>
   length (one_chunk (snd (updated_data ! 2))) = 1 \<and>
   length (snd first_run) = 2 \<and>
   length (snd second_run) = 2 \<and>
   length (vector_store (fst second_run)) = 3"
proof -
  have h1: "distinct [fst (updated_data ! 0), fst (updated_data ! 1), fst (updated_data ! 2)]"
    by (simp add: updated_data_def)
  have h2: "snd (updated_data ! 0) \<noteq> snd (seed_data ! 0)"
    by (simp add: updated_data_def seed_data_def)
  have h3: "length (one_chunk (snd (seed_data ! 0))) = 1"
    and h4: "length (one_chunk (snd (updated_data ! 0))) = 1"
    and h5: "length (one_chunk (snd (updated_data ! 1))) = 1"
    and h6: "length (one_chunk (snd (updated_data ! 2))) = 1"
    by (simp_all add: one_chunk_def)
  note rerun = three_nodes_after_rerun[OF h1 h2 h3 h4 h5 h6, of length "\<lambda>i. []" "\<lambda>i. []"]
  have seed: "[(fst (updated_data ! 0), snd (seed_data ! 0)),
               (fst (updated_data ! 1), snd (updated_data ! 1))] = seed_data"
    by (simp add: seed_data_def updated_data_def)
  have updated: "[(fst (updated_data ! 0), snd (updated_data ! 0)),
                  (fst (updated_data ! 1), snd (updated_data ! 1)),
                  (fst (updated_data ! 2), snd (updated_data ! 2))] = updated_data"
    by (simp add: updated_data_def)
  have "length (snd first_run) = 2 \<and> length (snd second_run) = 2 \<and>
        length (vector_store (fst second_run)) = 3"
    using rerun
    unfolding seed updated first_run_def second_run_def first_documents_def
      second_documents_def
    by blast
  moreover have "distinct (map fst updated_data)"
    by (simp add: updated_data_def)
  ultimately show ?thesis
    using h2 h3 h4 h5 h6 by blast
qed

text \<open>
  Claim C2. A document is in one run and, with the same identifier and another content,
  in the next run; the identifiers within each run are distinct. After the second run
  the nodes stored under the identifier are exactly the nodes of the new content, the
  document store holds the new content under the identifier, and the second run returned
  exactly those nodes for it. This holds from any state of the stores before the first
  run.
\<close>

theorem run_replaces_modified:
  assumes "distinct (map doc_id ds1)" and "distinct (map doc_id ds2)"
    and "old \<in> set ds1" and "new \<in> set ds2"
    and "doc_id new = doc_id old" and "doc_text new \<noteq> doc_text old"
  shows "nodes_of (doc_id new)
           (vector_store (fst (run sp em (fst (run sp em p0 ds1)) ds2))) =
           run_transformations sp em new \<and>
         docstore (fst (run sp em (fst (run sp em p0 ds1)) ds2)) (doc_id new) =
           Some (doc_text new) \<and>
         nodes_of (doc_id new) (snd (run sp em (fst (run sp em p0 ds1)) ds2)) =
           run_transformations sp em new"
proof -
  let ?p1 = "fst (run sp em p0 ds1)"
  have stored: "docstore ?p1 (doc_id new) = Some (doc_text old)"
    using run_docstore_self[OF assms(1) assms(3)] assms(5) by simp
  have changed: "doc_text old \<noteq> doc_text new"
    using assms(6) by simp
  from run_modified[OF assms(2) assms(4) stored changed]
    run_docstore_self[OF assms(2) assms(4)]
  show ?thesis by simp
qed

theorem run_replaces_modified_witness:
  "distinct (map doc_id first_documents) \<and>
   distinct (map doc_id second_documents) \<and>
   first_documents ! 0 \<in> set first_documents \<and>
   second_documents ! 0 \<in> set second_documents \<and>
   doc_id (second_documents ! 0) = doc_id (first_documents ! 0) \<and>
   doc_text (second_documents ! 0) \<noteq> doc_text (first_documents ! 0) \<and>
   nodes_of ''test_redis_data/test1.txt'' (vector_store (fst second_run)) =
     [\<lparr>ref_doc_id = ''test_redis_data/test1.txt'',
       node_text = ''This is a NEW test file: one!'' @ [CHR 0x0A],
       embedding = 30\<rparr>] \<and>
   docstore (fst second_run) ''test_redis_data/test1.txt'' =
     Some (''This is a NEW test file: one!'' @ [CHR 0x0A])"
proof -
  note defs = first_documents_def second_documents_def load_data_def
    seed_data_def updated_data_def
  have h1: "distinct (map doc_id first_documents)"
    by (simp add: defs)
  have h2: "distinct (map doc_id second_documents)"
    by (simp add: defs)
  have h3: "first_documents ! 0 \<in> set first_documents"
    by (simp add: defs)
  have h4: "second_documents ! 0 \<in> set second_documents"
    by (simp add: defs)
  have h5: "doc_id (second_documents ! 0) = doc_id (first_documents ! 0)"
    by (simp add: defs)
  have h6: "doc_text (second_documents ! 0) \<noteq> doc_text (first_documents ! 0)"
    by (simp add: defs)
  have new: "second_documents ! 0 =
      \<lparr>doc_id = ''test_redis_data/test1.txt'',
       doc_text = ''This is a NEW test file: one!'' @ [CHR 0x0A]\<rparr>"
    by (simp add: defs)
  from run_replaces_modified[OF h1 h2 h3 h4 h5 h6, of one_chunk length empty_pipeline]
  have "nodes_of ''test_redis_data/test1.txt'' (vector_store (fst second_run)) =
          [\<lparr>ref_doc_id = ''test_redis_data/test1.txt'',
            node_text = ''This is a NEW test file: one!'' @ [CHR 0x0A],
            embedding = 30\<rparr>] \<and>
        docstore (fst second_run) ''test_redis_data/test1.txt'' =
          Some (''This is a NEW test file: one!'' @ [CHR 0x0A])"
    by (simp add: new first_run_def second_run_def run_transformations_def one_chunk_def)
  with h1 h2 h3 h4 h5 h6 show ?thesis
    by blast
qed



text \<open>
  Claim C5. With \<^verbatim>\<open>filename_as_id=True\<close> the identifiers the loader assigns are the
  names of the files. Two invocations over directories with the same file names give
  the same identifiers, whatever the files contain at either time and whatever
  identifiers either invocation would have assigned without the flag.
\<close>

theorem filename_ids_deterministic:
  "map fst dir1 = map fst dir2 \<Longrightarrow>
   map doc_id (load_data True other1 dir1) = map doc_id (load_data True other2 dir2) \<and>
   map doc_id (load_data True other1 dir1) = map fst dir1"
  by (simp add: load_data_ids)

theorem filename_ids_deterministic_witness:
  "map fst seed_data = map fst (take 2 updated_data) \<and>
   map doc_id (load_data True (\<lambda>i. ''a'') seed_data) =
     map doc_id (load_data True (\<lambda>i. ''b'') (take 2 updated_data)) \<and>
   map doc_id (load_data True (\<lambda>i. ''a'') seed_data) =
     [''test_redis_data/test1.txt'', ''test_redis_data/test2.txt'']"
proof -
  have h: "map fst seed_data = map fst (take 2 updated_data)"
    by (simp add: seed_data_def updated_data_def)
  have names: "map fst seed_data =
      [''test_redis_data/test1.txt'', ''test_redis_data/test2.txt'']"
    by (simp add: seed_data_def)
  from filename_ids_deterministic[OF h, of "\<lambda>i. ''a''" "\<lambda>i. ''b''"] h
  show ?thesis
    unfolding names by blast
qed

text \<open>
  Claim C8. Splitting a string at its newline characters and joining the pieces with
  newlines gives the string back, for every string; so the \<^verbatim>\<open>queries_str\<close> that
  \<^verbatim>\<open>generate_queries\<close> prints after the heading is, character for character, the
  response of the language model (\<^verbatim>\<open>print\<close> ends the line after it).
\<close>

theorem generate_queries_prints_response:
  "str_join [CHR 0x0A] (str_split (CHR 0x0A) s) = s \<and>
   printed (generate_queries query llm num_queries) =
     ''Generated queries:'' @ [CHR 0x0A] @ llm query_gen_str num_queries query @ [CHR 0x0A]"
  by (simp add: generate_queries_def Let_def str_join_split)

text \<open>
  Claim C9. \<^verbatim>\<open>generate_queries\<close> returns exactly the newline-separated segments of the
  response. No returned query contains a newline; the queries, each followed by a
  newline, make up the response followed by a newline; and no other list has these two
  properties. The list is never empty and has one element more than the response has
  newline characters. \<^verbatim>\<open>num_queries\<close> reaches the result only through the response: a
  model that answers with the empty string gives the one-element list \<^verbatim>\<open>[""]\<close>
  whatever \<^verbatim>\<open>num_queries\<close> is.
\<close>

theorem generate_queries_returns_segments:
  "list_all (\<lambda>q. CHR 0x0A \<notin> set q) (queries (generate_queries query llm num_queries)) \<and>
   concat (map (\<lambda>q. q @ [CHR 0x0A]) (queries (generate_queries query llm num_queries))) =
     llm query_gen_str num_queries query @ [CHR 0x0A] \<and>
   (\<forall>qs. list_all (\<lambda>q. CHR 0x0A \<notin> set q) qs \<and>
         concat (map (\<lambda>q. q @ [CHR 0x0A]) qs) =
           llm query_gen_str num_queries query @ [CHR 0x0A] \<longrightarrow>
         queries (generate_queries query llm num_queries) = qs) \<and>
   queries (generate_queries query llm num_queries) \<noteq> [] \<and>
   length (queries (generate_queries query llm num_queries)) =
     1 + count_list (llm query_gen_str num_queries query) (CHR 0x0A) \<and>
   queries (generate_queries query (\<lambda>prompt n q. []) num_queries) = [[]]"
proof -
  let ?response = "llm query_gen_str num_queries query"
  have returned: "queries (generate_queries query llm num_queries) =
      str_split (CHR 0x0A) ?response"
    by (simp add: generate_queries_def Let_def)
  have only: "str_split (CHR 0x0A) ?response = qs"
    if "list_all (\<lambda>q. CHR 0x0A \<notin> set q) qs"
      and "concat (map (\<lambda>q. q @ [CHR 0x0A]) qs) = ?response @ [CHR 0x0A]" for qs
    using str_split_unique[OF that] by simp
  have empty: "queries (generate_queries query (\<lambda>prompt n q. []) num_queries) = [[]]"
    by (simp add: generate_queries_def Let_def)
  show ?thesis
    unfolding returned
  proof (intro conjI allI impI)
    show "list_all (\<lambda>q. CHR 0x0A \<notin> set q) (str_split (CHR 0x0A) ?response)"
      by (rule str_split_no_sep)
    show "concat (map (\<lambda>q. q @ [CHR 0x0A]) (str_split (CHR 0x0A) ?response)) =
        ?response @ [CHR 0x0A]"
      by (rule concat_str_split)
    show "str_split (CHR 0x0A) ?response = qs"
      if "list_all (\<lambda>q. CHR 0x0A \<notin> set q) qs \<and>
          concat (map (\<lambda>q. q @ [CHR 0x0A]) qs) = ?response @ [CHR 0x0A]" for qs
      using that by (intro only) (erule conjunct1, erule conjunct2)
    show "str_split (CHR 0x0A) ?response \<noteq> []"
      by (rule str_split_not_Nil)
    show "length (str_split (CHR 0x0A) ?response) = 1 + count_list ?response (CHR 0x0A)"
      by (simp only: length_str_split plus_1_eq_Suc)
    show "queries (generate_queries query (\<lambda>prompt n q. []) num_queries) = [[]]"
      by (rule empty)
  qed
qed

theorem generate_queries_returns_segments_witness:
  "list_all (\<lambda>q. CHR 0x0A \<notin> set q) [''q1'', ''q2''] \<and>
   concat (map (\<lambda>q. q @ [CHR 0x0A]) [''q1'', ''q2'']) =
     (''q1'' @ [CHR 0x0A] @ ''q2'') @ [CHR 0x0A] \<and>
   queries (generate_queries ''query'' (\<lambda>prompt n q. ''q1'' @ [CHR 0x0A] @ ''q2'') 4) =
     [''q1'', ''q2'']"
proof -
  let ?llm = "\<lambda>prompt (n :: int) q :: string. ''q1'' @ [CHR 0x0A] @ ''q2''"
  have h1: "list_all (\<lambda>q. CHR 0x0A \<notin> set q) [''q1'', ''q2'']"
    by simp
  have h2: "concat (map (\<lambda>q. q @ [CHR 0x0A]) [''q1'', ''q2'']) =
      ?llm query_gen_str 4 ''query'' @ [CHR 0x0A]"
    by simp
  note segments = generate_queries_returns_segments[of "''query''" ?llm 4]
  note only = segments[THEN conjunct2, THEN conjunct2, THEN conjunct1, rule_format]
  from only[OF conjI[OF h1 h2]] h1 h2 show ?thesis
    by simp
qed

text \<open>
  Claim C10. For all integers \<open>a\<close> and \<open>b\<close>, \<^verbatim>\<open>add(a, b)\<close> ends with the value \<open>a + b\<close>,
  and for every string \<open>sql\<close>, \<^verbatim>\<open>execute_sql(sql)\<close> ends with the string \<^verbatim>\<open>"Executed "\<close>
  followed by \<open>sql\<close>. On these arguments neither call raises, and each leaves the world
  as it found it: nothing is written and no statement is executed.
\<close>

theorem add_execute_sql_results:
  "add (PyInt a) (PyInt b) w = (Inr (PyInt (a + b)), w) \<and>
   execute_sql (PyStr sql) w = (Inr (PyStr (''Executed '' @ sql)), w)"
  by (simp add: add_def execute_sql_def)

end
